theory Spec2Isabelle
  imports Complex_Main "HOL-Library.Multiset"
begin

section \<open>Data model of \<^verbatim>\<open>train/train_DPO.py\<close>\<close>

text \<open>
  The script reads a JSON-Lines file into a data frame, walks over its rows, builds one
  preference record per row, splits the records into a train and a test part and hands
  them to the trainer. The definitions below follow the script line by line; library
  calls are modelled by what they return to the script.

  A cell of the frame is either a string or the missing-value marker \<open>NaN\<close> that the
  frame holds where a record of the file had no entry for a column. (The spec's input
  format has four string fields; other JSON value types are outside this model.)
\<close>

datatype pyval = Str string | NaN

text \<open>What an f-string replacement field \<^verbatim>\<open>{v}\<close> renders for a cell.\<close>

fun py_format :: "pyval \<Rightarrow> string" where
  "py_format (Str s) = s"
| "py_format NaN = ''nan''"

datatype error = KeyError string | ValueError | IndexError

text \<open>
  A row handed out by \<^verbatim>\<open>df.iterrows()\<close> is a labelled series: one cell per column of
  the frame. \<^verbatim>\<open>row[k]\<close> raises \<open>KeyError\<close> when \<open>k\<close> is no column label.
\<close>

type_synonym series = "(string \<times> pyval) list"

definition getitem :: "series \<Rightarrow> string \<Rightarrow> error + pyval" where
  "getitem row k = (case map_of row k of None \<Rightarrow> Inl (KeyError k) | Some v \<Rightarrow> Inr v)"

record message =
  content :: pyval
  role :: string

record formatted =
  prompt :: string
  chosen :: "message list"
  rejected :: "message list"

section \<open>The prompt template and the formatter\<close>

definition instruction :: string where
  "instruction =
     ''You are an advanced reasoning agent that can improve based on self-reflection. '' @
     ''You will be given a previous reasoning trial in which you were given a question to answer. '' @
     ''You were unsuccessful in answering the question. In a few sentences, Diagnose a possible reason for failure and devise a new, concise, high-level plan that aims to mitigate the same failure. Use complete sentences.'' @
     [CHR 0x0A, CHR 0x0A]"

text \<open>The template of \<^verbatim>\<open>build_user_prompt\<close> with its two replacement fields filled.\<close>

definition template :: "string \<Rightarrow> string \<Rightarrow> string" where
  "template q r =
     instruction @
     ''Question: '' @ q @ [CHR 0x0A] @
     ''Previous trial and your incorrect solution: '' @ r"

text \<open>
  \<^verbatim>\<open>build_user_prompt(row)\<close>: the two subscripts are evaluated left to right, so the
  first missing label is the one the \<open>KeyError\<close> names.
\<close>

definition build_user_prompt :: "series \<Rightarrow> error + string" where
  "build_user_prompt row =
     (case getitem row ''question'' of
        Inl e \<Rightarrow> Inl e
      | Inr q \<Rightarrow>
          (case getitem row ''first_trial_reasoning'' of
             Inl e \<Rightarrow> Inl e
           | Inr r \<Rightarrow> Inr (template (py_format q) (py_format r))))"

text \<open>The body of the loop in \<^verbatim>\<open>main\<close>: the dictionary appended for one row.\<close>

definition format_row :: "series \<Rightarrow> error + formatted" where
  "format_row row =
     (case build_user_prompt row of
        Inl e \<Rightarrow> Inl e
      | Inr user_input \<Rightarrow>
          (case getitem row ''reflection_chosen'' of
             Inl e \<Rightarrow> Inl e
           | Inr c \<Rightarrow>
               (case getitem row ''reflection_rejected'' of
                  Inl e \<Rightarrow> Inl e
                | Inr rj \<Rightarrow>
                    Inr \<lparr>prompt = user_input,
                         chosen = [\<lparr>content = Str user_input, role = ''user''\<rparr>,
                                   \<lparr>content = c, role = ''assistant''\<rparr>],
                         rejected = [\<lparr>content = Str user_input, role = ''user''\<rparr>,
                                     \<lparr>content = rj, role = ''assistant''\<rparr>]\<rparr>)))"

text \<open>
  The loop \<^verbatim>\<open>for _, row in df.iterrows(): formatted_data.append(...)\<close>: the list built so
  far is the accumulator; an exception in the body ends the loop and the run.
\<close>

fun format_loop :: "series list \<Rightarrow> formatted list \<Rightarrow> error + formatted list" where
  "format_loop [] formatted_data = Inr formatted_data"
| "format_loop (row # rows) formatted_data =
     (case format_row row of
        Inl e \<Rightarrow> Inl e
      | Inr d \<Rightarrow> format_loop rows (formatted_data @ [d]))"

definition format_data :: "series list \<Rightarrow> error + formatted list" where
  "format_data rows = format_loop rows []"

text \<open>The four labels the loop body reads, in the order it reads them.\<close>

definition required_fields :: "string list" where
  "required_fields =
     [''question'', ''first_trial_reasoning'', ''reflection_chosen'', ''reflection_rejected'']"

section \<open>Choosing the checkpoint to resume from\<close>

text \<open>
  \<^verbatim>\<open>checkpoint = None\<close>, then the \<^verbatim>\<open>if\<close>/\<^verbatim>\<open>elif\<close> on
  \<^verbatim>\<open>training_args.resume_from_checkpoint\<close> and \<^verbatim>\<open>last_checkpoint\<close>.
\<close>

definition select_checkpoint :: "'c option \<Rightarrow> 'c option \<Rightarrow> 'c option" where
  "select_checkpoint resume_from_checkpoint last_checkpoint =
     (case resume_from_checkpoint of
        Some r \<Rightarrow> Some r
      | None \<Rightarrow> (case last_checkpoint of Some l \<Rightarrow> Some l | None \<Rightarrow> None))"

section \<open>Loading the file\<close>

text \<open>
  \<^verbatim>\<open>pd.read_json(data_path, lines=True)\<close>: every line of the file is one JSON object,
  here a list of field names with their string values. The frame gets one column for
  every field name that occurs in some record and one row per record, in file order; a
  record that lacks a field of another record gets \<open>NaN\<close> in that column.
\<close>

type_synonym json_record = "(string \<times> string) list"

definition columns :: "json_record list \<Rightarrow> string list" where
  "columns recs = remdups (concat (map (map fst) recs))"

definition read_json :: "json_record list \<Rightarrow> series list" where
  "read_json recs =
     map (\<lambda>r. map (\<lambda>c. (c, case map_of r c of None \<Rightarrow> NaN | Some v \<Rightarrow> Str v)) (columns recs))
       recs"

text \<open>Lines 101 to 117 of \<^verbatim>\<open>main\<close>: the frame is read, then its rows are formatted.\<close>

definition load_and_format :: "json_record list \<Rightarrow> error + formatted list" where
  "load_and_format recs = format_data (read_json recs)"

section \<open>The train/test split\<close>

text \<open>
  \<^verbatim>\<open>pd.DataFrame(formatted_data)\<close> numbers its rows \<open>0, 1, \<dots>\<close>; a part of the frame
  keeps the numbers its rows had.
\<close>

type_synonym 'a frame = "(nat \<times> 'a) list"

definition DataFrame :: "'a list \<Rightarrow> 'a frame" where
  "DataFrame xs = zip [0..<length xs] xs"

text \<open>
  The sizes \<^verbatim>\<open>train_test_split\<close> computes for a fractional \<^verbatim>\<open>test_size\<close> and no
  \<^verbatim>\<open>train_size\<close>: \<open>n_test = ceil(test_size * n_samples)\<close>,
  \<open>n_train = n_samples - n_test\<close>, and a \<open>ValueError\<close> when the train part would be
  empty. The script passes the float \<open>0.1\<close>; the product \<open>0.1 * n\<close> rounds to the
  integer \<open>n / 10\<close> when 10 divides \<open>n\<close> and is not near an integer otherwise, so the
  ceiling is that of the exact tenth, which the model computes in the rationals.
\<close>

definition validate_shuffle_split :: "nat \<Rightarrow> rat \<Rightarrow> error + (nat \<times> nat)" where
  "validate_shuffle_split n_samples test_size =
     (if test_size \<le> 0 \<or> 1 \<le> test_size then Inl ValueError
      else
        let n_test = nat \<lceil>test_size * of_nat n_samples\<rceil>;
            n_train = n_samples - n_test
        in if n_train = 0 then Inl ValueError else Inr (n_train, n_test))"

text \<open>
  The random number generator is the library's: \<open>seed_rng s\<close> is the state of a fresh
  generator seeded with \<open>s\<close>, \<open>permutation g n\<close> the arrangement of \<open>0, \<dots>, n - 1\<close> that
  a generator in state \<open>g\<close> draws, and \<open>global_rng\<close> the state of the process-wide
  generator at the time of the call. \<^verbatim>\<open>check_random_state\<close> takes the process-wide
  generator when no seed is given and a fresh one otherwise.
\<close>

definition check_random_state :: "(nat \<Rightarrow> 'g) \<Rightarrow> 'g \<Rightarrow> nat option \<Rightarrow> 'g" where
  "check_random_state seed_rng global_rng random_state =
     (case random_state of None \<Rightarrow> global_rng | Some s \<Rightarrow> seed_rng s)"

text \<open>
  \<^verbatim>\<open>ShuffleSplit._iter_indices\<close>: the test indices are the first \<open>n_test\<close> entries of
  the permutation, the train indices the \<open>n_train\<close> entries after them.
\<close>

definition iter_indices ::
  "('g \<Rightarrow> nat \<Rightarrow> nat list) \<Rightarrow> 'g \<Rightarrow> nat \<Rightarrow> nat \<Rightarrow> nat \<Rightarrow> nat list \<times> nat list" where
  "iter_indices permutation rng n_samples n_train n_test =
     (let p = permutation rng n_samples;
          ind_test = take n_test p;
          ind_train = take n_train (drop n_test p)
      in (ind_train, ind_test))"

text \<open>Selecting rows by position; a position outside the frame is an \<open>IndexError\<close>.\<close>

definition safe_indexing :: "'a frame \<Rightarrow> nat list \<Rightarrow> error + 'a frame" where
  "safe_indexing X indices =
     (if \<forall>i\<in>set indices. i < length X then Inr (map (\<lambda>i. X ! i) indices)
      else Inl IndexError)"

definition train_test_split ::
  "(nat \<Rightarrow> 'g) \<Rightarrow> ('g \<Rightarrow> nat \<Rightarrow> nat list) \<Rightarrow> 'g \<Rightarrow> 'a frame \<Rightarrow> rat \<Rightarrow> nat option \<Rightarrow>
     error + ('a frame \<times> 'a frame)" where
  "train_test_split seed_rng permutation global_rng X test_size random_state =
     (case validate_shuffle_split (length X) test_size of
        Inl e \<Rightarrow> Inl e
      | Inr (n_train, n_test) \<Rightarrow>
          (let rng = check_random_state seed_rng global_rng random_state;
               (train, test) = iter_indices permutation rng (length X) n_train n_test
           in case safe_indexing X train of
                Inl e \<Rightarrow> Inl e
              | Inr X_train \<Rightarrow>
                  (case safe_indexing X test of
                     Inl e \<Rightarrow> Inl e
                   | Inr X_test \<Rightarrow> Inr (X_train, X_test))))"

text \<open>
  Lines 119 and 120 of \<^verbatim>\<open>main\<close>:
  \<^verbatim>\<open>train_test_split(pd.DataFrame(formatted_data), test_size=0.1, random_state=42)\<close>.
\<close>

definition main_split ::
  "(nat \<Rightarrow> 'g) \<Rightarrow> ('g \<Rightarrow> nat \<Rightarrow> nat list) \<Rightarrow> 'g \<Rightarrow> 'a list \<Rightarrow> error + ('a frame \<times> 'a frame)" where
  "main_split seed_rng permutation global_rng formatted_data =
     train_test_split seed_rng permutation global_rng (DataFrame formatted_data) (1 / 10) (Some 42)"

section \<open>The command line\<close>

text \<open>
  Lines 62 to 64 of \<^verbatim>\<open>main\<close> build \<^verbatim>\<open>argparse.ArgumentParser()\<close> with its defaults
  (prefix character \<open>-\<close>, abbreviations allowed, the help option \<open>-h\<close>/\<open>--help\<close>), add the
  option \<open>--data_path\<close> (one argument of type \<open>str\<close>, required, default \<open>None\<close>) and call
  \<^verbatim>\<open>parse_known_args()\<close> on the command line after the program name. The definitions
  follow \<^verbatim>\<open>argparse.py\<close> of CPython 3.11, function by function, for this parser. The
  parser has no positional argument, so every argument string that is no option of this
  parser ends in the list of remaining arguments.
\<close>

datatype action = Help | DataPath

definition option_string_actions :: "(string \<times> action) list" where
  "option_string_actions = [(''-h'', Help), (''--help'', Help), (''--data_path'', DataPath)]"

text \<open>\<^verbatim>\<open>s.startswith(p)\<close>, and \<^verbatim>\<open>s.partition('=')\<close> with an empty separator when there is no \<open>=\<close>.\<close>

definition startswith :: "string \<Rightarrow> string \<Rightarrow> bool" where
  "startswith s p = (take (length p) s = p)"

definition partition_eq :: "string \<Rightarrow> string \<times> string \<times> string" where
  "partition_eq s =
     (let a = takeWhile (\<lambda>c. c \<noteq> CHR ''='') s;
          b = dropWhile (\<lambda>c. c \<noteq> CHR ''='') s
      in if b = [] then (a, [], []) else (a, ''='', tl b))"

text \<open>
  An option tuple is \<open>(action, option_string, sep, explicit_arg)\<close>; the action is \<open>None\<close>
  for a string that looks like an option but is none of this parser.
  \<^verbatim>\<open>_get_option_tuples\<close> collects the options a string abbreviates (two dashes) or a
  short option with its argument attached (one dash). Its result \<open>None\<close> is the call of
  \<^verbatim>\<open>self.error\<close> for a string that does not start with a dash; \<^verbatim>\<open>_parse_optional\<close>
  calls it with strings of a dash and at least one more character only.
\<close>

type_synonym option_tuple = "action option \<times> string \<times> string option \<times> string option"

fun get_option_tuples :: "string \<Rightarrow> option_tuple list option" where
  "get_option_tuples (c0 # c1 # cs) =
     (let option_string = c0 # c1 # cs in
      if c0 = CHR ''-'' \<and> c1 = CHR ''-'' then
        (let (option_prefix, sep, explicit_arg) = partition_eq option_string;
             (sep', explicit_arg') =
               (if sep = [] then (None, None) else (Some sep, Some explicit_arg))
         in Some (map (\<lambda>(os, a). (Some a, os, sep', explicit_arg'))
                   (filter (\<lambda>(os, a). startswith os option_prefix) option_string_actions)))
      else if c0 = CHR ''-'' \<and> c1 \<noteq> CHR ''-'' then
        (let option_prefix = option_string;
             short_option_prefix = take 2 option_string;
             short_explicit_arg = drop 2 option_string
         in Some (concat (map (\<lambda>(os, a).
                     if os = short_option_prefix then [(Some a, os, Some [], Some short_explicit_arg)]
                     else if startswith os option_prefix then [(Some a, os, None, None)]
                     else [])
                   option_string_actions)))
      else None)"
| "get_option_tuples _ = None"

text \<open>
  The pattern \<^verbatim>\<open>^-\d+$|^-\d*\.\d+$\<close> of \<^verbatim>\<open>_negative_number_matcher\<close>; \<open>$\<close> also matches
  before one final newline.
\<close>

definition is_digit :: "char \<Rightarrow> bool" where
  "is_digit c = (c \<in> set ''0123456789'')"

definition negative_number :: "string \<Rightarrow> bool" where
  "negative_number s =
     (case s of
        [] \<Rightarrow> False
      | c # cs \<Rightarrow>
          c = CHR ''-'' \<and>
          (let body = (if cs \<noteq> [] \<and> last cs = CHR 0x0A then butlast cs else cs);
               frac = dropWhile is_digit body
           in (body \<noteq> [] \<and> list_all is_digit body) \<or>
              (frac \<noteq> [] \<and> hd frac = CHR ''.'' \<and> tl frac \<noteq> [] \<and> list_all is_digit (tl frac))))"

text \<open>
  \<^verbatim>\<open>_parse_optional\<close>: \<open>Positional\<close> is its result \<open>None\<close>, \<open>Usage_error\<close> the call of
  \<^verbatim>\<open>self.error\<close> for an ambiguous abbreviation.
\<close>

datatype parsed_optional = Positional | Optional option_tuple | Usage_error

definition parse_optional :: "string \<Rightarrow> parsed_optional" where
  "parse_optional arg_string =
     (if arg_string = [] then Positional
      else if hd arg_string \<noteq> CHR ''-'' then Positional
      else
        (case map_of option_string_actions arg_string of
           Some a \<Rightarrow> Optional (Some a, arg_string, None, None)
         | None \<Rightarrow>
             if length arg_string = 1 then Positional
             else
               (let (option_string, sep, explicit_arg) = partition_eq arg_string in
                case (if sep \<noteq> [] then map_of option_string_actions option_string else None) of
                  Some a \<Rightarrow> Optional (Some a, option_string, Some sep, Some explicit_arg)
                | None \<Rightarrow>
                    (case get_option_tuples arg_string of
                       None \<Rightarrow> Usage_error
                     | Some [] \<Rightarrow>
                         if negative_number arg_string then Positional
                         else if CHR '' '' \<in> set arg_string then Positional
                         else Optional (None, arg_string, None, None)
                     | Some [t] \<Rightarrow> Optional t
                     | Some _ \<Rightarrow> Usage_error))))"

text \<open>
  The first loop of \<^verbatim>\<open>_parse_known_args\<close>: every argument string gets its letter of the
  pattern, \<open>O\<close> with its option tuple, \<open>A\<close>, or \<open>-\<close> for the first \<open>--\<close>, after which
  every string is an \<open>A\<close>.
\<close>

datatype pat = PatA | PatDash | PatO option_tuple

fun classify :: "string list \<Rightarrow> (string \<times> pat) list option" where
  "classify [] = Some []"
| "classify (arg_string # rest) =
     (if arg_string = ''--'' then Some ((arg_string, PatDash) # map (\<lambda>a. (a, PatA)) rest)
      else
        (case parse_optional arg_string of
           Usage_error \<Rightarrow> None
         | Positional \<Rightarrow> map_option (Cons (arg_string, PatA)) (classify rest)
         | Optional t \<Rightarrow> map_option (Cons (arg_string, PatO t)) (classify rest)))"

text \<open>
  \<^verbatim>\<open>consume_optional\<close> for the help action with an explicit argument: the exit status
  the loop ends with, 0 when help is printed and 2 for \<open>ignored explicit argument\<close>.
\<close>

fun help_chain :: "string \<Rightarrow> string \<Rightarrow> string \<Rightarrow> nat" where
  "help_chain option_string sep [] = 2"
| "help_chain option_string sep (c # cs) =
     (if hd (tl option_string) = CHR ''-'' then 2
      else if sep \<noteq> [] \<or> c = CHR ''-'' then 2
      else if c = CHR ''h'' then
        (case cs of
           [] \<Rightarrow> 0
         | d # ds \<Rightarrow> if d = CHR ''='' then help_chain ''-h'' ''='' ds else help_chain ''-h'' [] cs)
      else 0)"

text \<open>
  The namespace holds \<open>data_path\<close>, \<open>None\<close> until the option is seen. Parsing ends with
  the namespace and the remaining arguments, or with \<^verbatim>\<open>sys.exit(status)\<close>.
\<close>

record namespace =
  data_path :: "string option"

datatype outcome = Parsed namespace "string list" | SystemExit nat

text \<open>
  The second loop of \<^verbatim>\<open>_parse_known_args\<close>, \<^verbatim>\<open>consume_optional\<close> included, and the
  check of required options after it: strings that are no option of the parser go to
  \<open>extras\<close>, the help action exits, \<open>--data_path\<close> stores its explicit argument or the
  next string, which must be an \<open>A\<close>.
\<close>

fun consume :: "(string \<times> pat) list \<Rightarrow> namespace \<Rightarrow> string list \<Rightarrow> outcome" where
  "consume [] ns extras =
     (case data_path ns of None \<Rightarrow> SystemExit 2 | Some _ \<Rightarrow> Parsed ns extras)"
| "consume ((arg_string, PatA) # rest) ns extras = consume rest ns (extras @ [arg_string])"
| "consume ((arg_string, PatDash) # rest) ns extras = consume rest ns (extras @ [arg_string])"
| "consume ((arg_string, PatO (None, option_string, sep, explicit_arg)) # rest) ns extras =
     consume rest ns (extras @ [arg_string])"
| "consume ((arg_string, PatO (Some Help, option_string, sep, None)) # rest) ns extras =
     SystemExit 0"
| "consume ((arg_string, PatO (Some Help, option_string, sep, Some explicit_arg)) # rest) ns extras =
     SystemExit (help_chain option_string (case sep of None \<Rightarrow> [] | Some s \<Rightarrow> s) explicit_arg)"
| "consume ((arg_string, PatO (Some DataPath, option_string, sep, Some explicit_arg)) # rest) ns extras =
     consume rest (ns\<lparr>data_path := Some explicit_arg\<rparr>) extras"
| "consume ((arg_string, PatO (Some DataPath, option_string, sep, None)) # (v, PatA) # rest) ns extras =
     consume rest (ns\<lparr>data_path := Some v\<rparr>) extras"
| "consume ((arg_string, PatO (Some DataPath, option_string, sep, None)) # rest) ns extras =
     SystemExit 2"

definition parse_known_args :: "string list \<Rightarrow> outcome" where
  "parse_known_args args =
     (case classify args of
        None \<Rightarrow> SystemExit 2
      | Some pats \<Rightarrow> consume pats \<lparr>data_path = None\<rparr> [])"

text \<open>
  Lines 100 and 101: the argument of \<^verbatim>\<open>pd.read_json\<close> is \<^verbatim>\<open>extra_args.data_path\<close>;
  the statements between line 64 and line 100 do not change \<open>extra_args\<close>. \<open>None\<close> when
  parsing ends the run.
\<close>

definition read_json_path :: "string list \<Rightarrow> string option" where
  "read_json_path argv =
     (case parse_known_args argv of
        SystemExit status \<Rightarrow> None
      | Parsed extra_args remaining_argv \<Rightarrow> data_path extra_args)"

text \<open>
  An argument string this parser leaves for the second parser: a plain argument, or an
  option that is none of this parser.
\<close>

definition passthrough :: "string \<Rightarrow> bool" where
  "passthrough t =
     (case parse_optional t of
        Positional \<Rightarrow> True
      | Optional (a, rest) \<Rightarrow> a = None
      | Usage_error \<Rightarrow> False)"

fun supplied :: "string option \<Rightarrow> (string \<times> pat) list \<Rightarrow> string option" where
  "supplied (Some v) following = Some v"
| "supplied None ((v, PatA) # following) = Some v"
| "supplied None following = None"

text \<open>
  The argument strings that give the data path option: \<open>--data_path\<close> or an abbreviation
  of it of at least \<open>--d\<close>, alone or followed by \<open>=value\<close>; and the value given with such
  a string, after the \<open>=\<close> or as the next string.
\<close>

definition data_path_option :: "string \<Rightarrow> bool" where
  "data_path_option s =
     (let name = takeWhile (\<lambda>c. c \<noteq> CHR ''='') s
      in 3 \<le> length name \<and> startswith ''--data_path'' name)"

definition given_value :: "string \<Rightarrow> string list \<Rightarrow> string option" where
  "given_value s following =
     (if CHR ''='' \<in> set s then Some (tl (dropWhile (\<lambda>c. c \<noteq> CHR ''='') s))
      else (case following of [] \<Rightarrow> None | v # _ \<Rightarrow> Some v))"

definition skipped :: "pat \<Rightarrow> bool" where
  "skipped p = (case p of PatA \<Rightarrow> True | PatDash \<Rightarrow> True | PatO (a, rest) \<Rightarrow> a = None)"

section \<open>Properties of the formatter\<close>

lemma getitem_Inr_iff: "getitem row k = Inr v \<longleftrightarrow> map_of row k = Some v"
  by (simp add: getitem_def split: option.splits)

lemma format_row_Inr:
  assumes "getitem row ''question'' = Inr q"
    and "getitem row ''first_trial_reasoning'' = Inr r"
    and "getitem row ''reflection_chosen'' = Inr c"
    and "getitem row ''reflection_rejected'' = Inr rj"
  shows "format_row row =
     Inr \<lparr>prompt = template (py_format q) (py_format r),
          chosen = [\<lparr>content = Str (template (py_format q) (py_format r)), role = ''user''\<rparr>,
                    \<lparr>content = c, role = ''assistant''\<rparr>],
          rejected = [\<lparr>content = Str (template (py_format q) (py_format r)), role = ''user''\<rparr>,
                      \<lparr>content = rj, role = ''assistant''\<rparr>]\<rparr>"
  using assms by (simp add: format_row_def build_user_prompt_def)

lemma format_row_Inr_D:
  assumes "format_row row = Inr out"
  shows "\<exists>q r c rj.
     getitem row ''question'' = Inr q \<and>
     getitem row ''first_trial_reasoning'' = Inr r \<and>
     getitem row ''reflection_chosen'' = Inr c \<and>
     getitem row ''reflection_rejected'' = Inr rj"
  using assms
  by (auto simp: format_row_def build_user_prompt_def split: sum.splits)

text \<open>
  C1. For a row whose four fields \<open>question\<close>, \<open>first_trial_reasoning\<close>,
  \<open>reflection_chosen\<close> and \<open>reflection_rejected\<close> hold strings, the formatter returns a
  record whose \<open>prompt\<close> is the instruction template filled with that row's \<open>question\<close>
  and \<open>first_trial_reasoning\<close>, whose \<open>chosen[1].content\<close> is the row's
  \<open>reflection_chosen\<close> and whose \<open>rejected[1].content\<close> is the row's
  \<open>reflection_rejected\<close>.
\<close>

theorem format_row_populated:
  assumes "getitem row ''question'' = Inr (Str q)"
    and "getitem row ''first_trial_reasoning'' = Inr (Str r)"
    and "getitem row ''reflection_chosen'' = Inr (Str c)"
    and "getitem row ''reflection_rejected'' = Inr (Str rj)"
  shows "\<exists>out. format_row row = Inr out \<and>
     prompt out = template q r \<and>
     content (chosen out ! 1) = Str c \<and>
     content (rejected out ! 1) = Str rj"
  using format_row_Inr [OF assms] by simp

theorem format_row_populated_witness:
  "\<exists>out. format_row [(''question'', Str ''2+2?''), (''first_trial_reasoning'', Str ''5''),
                      (''reflection_chosen'', Str ''add again''),
                      (''reflection_rejected'', Str ''give up'')] = Inr out \<and>
     prompt out = template ''2+2?'' ''5'' \<and>
     content (chosen out ! 1) = Str ''add again'' \<and>
     content (rejected out ! 1) = Str ''give up''"
  using format_row_populated
    [of "[(''question'', Str ''2+2?''), (''first_trial_reasoning'', Str ''5''),
          (''reflection_chosen'', Str ''add again''),
          (''reflection_rejected'', Str ''give up'')]"
        "''2+2?''" "''5''" "''add again''" "''give up''"]
  by (simp add: getitem_def)

text \<open>
  C2. For a row that has the four required fields, the formatted record consists of
  \<open>prompt\<close>, \<open>chosen\<close> and \<open>rejected\<close>; \<open>chosen\<close> is a two-element list of a turn with
  role \<open>user\<close> followed by a turn with role \<open>assistant\<close> that carries the row's
  \<open>reflection_chosen\<close>, and \<open>rejected\<close> is a two-element list of a turn with role
  \<open>user\<close> followed by a turn with role \<open>assistant\<close> that carries the row's
  \<open>reflection_rejected\<close>.
\<close>

theorem format_row_shape:
  assumes "getitem row ''question'' = Inr q"
    and "getitem row ''first_trial_reasoning'' = Inr r"
    and "getitem row ''reflection_chosen'' = Inr c"
    and "getitem row ''reflection_rejected'' = Inr rj"
  shows "\<exists>p u u'. format_row row =
       Inr \<lparr>prompt = p,
            chosen = [\<lparr>content = u, role = ''user''\<rparr>, \<lparr>content = c, role = ''assistant''\<rparr>],
            rejected = [\<lparr>content = u', role = ''user''\<rparr>, \<lparr>content = rj, role = ''assistant''\<rparr>]\<rparr>"
  using format_row_Inr [OF assms] by blast

theorem format_row_shape_witness:
  "\<exists>p u u'. format_row [(''question'', Str ''2+2?''), (''first_trial_reasoning'', Str ''5''),
                         (''reflection_chosen'', Str ''add again''),
                         (''reflection_rejected'', NaN)] =
       Inr \<lparr>prompt = p,
            chosen = [\<lparr>content = u, role = ''user''\<rparr>,
                      \<lparr>content = Str ''add again'', role = ''assistant''\<rparr>],
            rejected = [\<lparr>content = u', role = ''user''\<rparr>,
                        \<lparr>content = NaN, role = ''assistant''\<rparr>]\<rparr>"
  using format_row_shape
    [of "[(''question'', Str ''2+2?''), (''first_trial_reasoning'', Str ''5''),
          (''reflection_chosen'', Str ''add again''),
          (''reflection_rejected'', NaN)]"
        "Str ''2+2?''" "Str ''5''" "Str ''add again''" "NaN"]
  by (simp add: getitem_def)

text \<open>
  C8. In every formatted record the user turn of \<open>chosen\<close> and the user turn of
  \<open>rejected\<close> are the same turn, and the content of both is the record's \<open>prompt\<close>.
\<close>

theorem format_row_user_turns:
  assumes "format_row row = Inr out"
  shows "chosen out ! 0 = rejected out ! 0 \<and>
     content (chosen out ! 0) = Str (prompt out) \<and>
     content (rejected out ! 0) = Str (prompt out)"
proof -
  from format_row_Inr_D [OF assms] obtain q r c rj where
    "getitem row ''question'' = Inr q"
    "getitem row ''first_trial_reasoning'' = Inr r"
    "getitem row ''reflection_chosen'' = Inr c"
    "getitem row ''reflection_rejected'' = Inr rj"
    by blast
  from format_row_Inr [OF this] assms show ?thesis by auto
qed

theorem format_row_user_turns_witness:
  "\<exists>out. format_row [(''question'', Str ''2+2?''), (''first_trial_reasoning'', Str ''5''),
                      (''reflection_chosen'', Str ''add again''),
                      (''reflection_rejected'', Str ''give up'')] = Inr out \<and>
     chosen out ! 0 = rejected out ! 0 \<and>
     content (chosen out ! 0) = Str (prompt out) \<and>
     content (rejected out ! 0) = Str (prompt out)"
proof -
  obtain out where h:
    "format_row [(''question'', Str ''2+2?''), (''first_trial_reasoning'', Str ''5''),
                 (''reflection_chosen'', Str ''add again''),
                 (''reflection_rejected'', Str ''give up'')] = Inr out"
    by (simp add: format_row_def build_user_prompt_def getitem_def)
  from format_row_user_turns [OF h] h show ?thesis by blast
qed

subsection \<open>The loop over the rows\<close>

lemma format_loop_Inr_iff:
  "format_loop rows acc = Inr outs \<longleftrightarrow>
     (\<exists>ds. outs = acc @ ds \<and> list_all2 (\<lambda>r d. format_row r = Inr d) rows ds)"
proof (induction rows arbitrary: acc)
  case Nil
  then show ?case by auto
next
  case (Cons row rows)
  show ?case
  proof (cases "format_row row")
    case (Inl e)
    then show ?thesis by (auto simp: list_all2_Cons1)
  next
    case (Inr d)
    then show ?thesis by (auto simp: Cons.IH list_all2_Cons1)
  qed
qed

lemma format_data_Inr_iff:
  "format_data rows = Inr outs \<longleftrightarrow> list_all2 (\<lambda>r d. format_row r = Inr d) rows outs"
  by (simp add: format_data_def format_loop_Inr_iff)

lemma format_row_cong:
  assumes "\<forall>k\<in>set required_fields. getitem row' k = getitem row k"
  shows "format_row row' = format_row row"
  using assms
  by (simp add: format_row_def build_user_prompt_def required_fields_def
      cong: sum.case_cong)

lemma format_row_total:
  assumes "\<forall>k\<in>set required_fields. \<exists>v. getitem row k = Inr v"
  shows "\<exists>d. format_row row = Inr d"
  using assms by (auto simp: format_row_def build_user_prompt_def required_fields_def)

text \<open>
  C9. The formatter is an order- and count-preserving map. For rows that have the four
  required fields it returns as many records as there are rows, the \<open>i\<close>-th record is
  the formatter's result for the \<open>i\<close>-th row, and it depends on the four required fields
  only: rows \<open>rows'\<close> that agree with \<open>rows\<close> on these fields (and differ in any other
  field) give the same records.
\<close>

theorem format_data_map:
  assumes "\<forall>row\<in>set rows. \<forall>k\<in>set required_fields. \<exists>v. getitem row k = Inr v"
    and "length rows' = length rows"
    and "\<forall>i<length rows. \<forall>k\<in>set required_fields. getitem (rows' ! i) k = getitem (rows ! i) k"
  shows "\<exists>outs. format_data rows = Inr outs \<and>
     length outs = length rows \<and>
     (\<forall>i<length rows. format_row (rows ! i) = Inr (outs ! i)) \<and>
     format_data rows' = Inr outs"
proof -
  have "\<forall>row\<in>set rows. \<exists>d. format_row row = Inr d"
    using assms(1) format_row_total by blast
  then obtain f where f: "\<forall>row\<in>set rows. format_row row = Inr (f row)"
    by metis
  let ?outs = "map f rows"
  have 1: "list_all2 (\<lambda>r d. format_row r = Inr d) rows ?outs"
    using f by (simp add: list_all2_conv_all_nth)
  have "\<forall>i<length rows. format_row (rows' ! i) = format_row (rows ! i)"
    using assms(3) format_row_cong by blast
  then have 2: "list_all2 (\<lambda>r d. format_row r = Inr d) rows' ?outs"
    using f assms(2) by (simp add: list_all2_conv_all_nth)
  have 3: "\<forall>i<length rows. format_row (rows ! i) = Inr (?outs ! i)"
    using f by simp
  show ?thesis
    using 1 2 3 by (intro exI [of _ ?outs]) (simp add: format_data_Inr_iff)
qed

theorem format_data_map_witness:
  "\<exists>outs.
     format_data [[(''question'', Str ''a''), (''first_trial_reasoning'', Str ''b''),
                   (''reflection_chosen'', Str ''c''), (''reflection_rejected'', Str ''d'')],
                  [(''question'', Str ''e''), (''first_trial_reasoning'', Str ''f''),
                   (''reflection_chosen'', Str ''g''), (''reflection_rejected'', Str ''h'')]]
       = Inr outs \<and>
     length outs = 2 \<and>
     format_data [[(''id'', Str ''1''), (''question'', Str ''a''),
                   (''first_trial_reasoning'', Str ''b''),
                   (''reflection_chosen'', Str ''c''), (''reflection_rejected'', Str ''d'')],
                  [(''id'', Str ''2''), (''question'', Str ''e''),
                   (''first_trial_reasoning'', Str ''f''),
                   (''reflection_chosen'', Str ''g''), (''reflection_rejected'', Str ''h'')]]
       = Inr outs"
proof -
  let ?rows = "[[(''question'', Str ''a''), (''first_trial_reasoning'', Str ''b''),
                 (''reflection_chosen'', Str ''c''), (''reflection_rejected'', Str ''d'')],
                [(''question'', Str ''e''), (''first_trial_reasoning'', Str ''f''),
                 (''reflection_chosen'', Str ''g''), (''reflection_rejected'', Str ''h'')]]"
  let ?rows' = "[[(''id'', Str ''1''), (''question'', Str ''a''),
                  (''first_trial_reasoning'', Str ''b''),
                  (''reflection_chosen'', Str ''c''), (''reflection_rejected'', Str ''d'')],
                 [(''id'', Str ''2''), (''question'', Str ''e''),
                  (''first_trial_reasoning'', Str ''f''),
                  (''reflection_chosen'', Str ''g''), (''reflection_rejected'', Str ''h'')]]"
  have "\<exists>outs. format_data ?rows = Inr outs \<and>
     length outs = length ?rows \<and>
     (\<forall>i<length ?rows. format_row (?rows ! i) = Inr (outs ! i)) \<and>
     format_data ?rows' = Inr outs"
    by (rule format_data_map) (simp_all add: getitem_def required_fields_def less_Suc_eq)
  then obtain outs where "format_data ?rows = Inr outs" "length outs = length ?rows"
    "format_data ?rows' = Inr outs"
    by blast
  then show ?thesis by simp
qed

section \<open>Checkpoint selection\<close>

text \<open>
  C10. The checkpoint to resume from follows a fixed precedence: a configured
  \<open>resume_from_checkpoint\<close> wins; without one, a last checkpoint detected in the output
  directory is taken; without either, training starts from no checkpoint.
\<close>

theorem select_checkpoint_precedence:
  "select_checkpoint (Some r) last_checkpoint = Some r \<and>
   select_checkpoint None (Some l) = Some l \<and>
   select_checkpoint None None = None"
  by (simp add: select_checkpoint_def)

section \<open>Properties of the split\<close>

lemma n_test_tenth: "nat \<lceil>of_nat n / (10 :: rat)\<rceil> = (n + 9) div 10"
proof -
  have "\<lceil>of_nat n / (10 :: rat)\<rceil> = \<lceil>of_int (int n) / (of_int 10 :: rat)\<rceil>"
    by simp
  also have "\<dots> = - ((- int n) div 10)"
    by (simp only: ceiling_divide_eq_div)
  also have "\<dots> = (int n + 9) div 10"
    by arith
  finally show ?thesis
    by (simp add: nat_div_distrib nat_add_distrib)
qed

lemma validate_shuffle_split_tenth:
  "validate_shuffle_split n (1 / 10) =
     (if n \<le> 1 then Inl ValueError else Inr (n - (n + 9) div 10, (n + 9) div 10))"
proof -
  have "n - (n + 9) div 10 = 0 \<longleftrightarrow> n \<le> 1"
    by arith
  then show ?thesis
    by (simp add: validate_shuffle_split_def n_test_tenth Let_def)
qed

lemma distinct_DataFrame: "distinct (DataFrame xs)"
  by (simp add: DataFrame_def distinct_zipI1)

lemma length_DataFrame: "length (DataFrame xs) = length xs"
  by (simp add: DataFrame_def)

lemma main_split_Inr:
  assumes n: "2 \<le> length formatted_data"
    and p: "mset (permutation (seed_rng 42) (length formatted_data)) = mset [0..<length formatted_data]"
  shows "main_split seed_rng permutation global_rng formatted_data =
     Inr (map (\<lambda>i. DataFrame formatted_data ! i)
            (drop ((length formatted_data + 9) div 10) (permutation (seed_rng 42) (length formatted_data))),
          map (\<lambda>i. DataFrame formatted_data ! i)
            (take ((length formatted_data + 9) div 10) (permutation (seed_rng 42) (length formatted_data))))"
proof -
  let ?n = "length formatted_data"
  let ?p = "permutation (seed_rng 42) ?n"
  let ?t = "(?n + 9) div 10"
  have len: "length ?p = ?n"
    using mset_eq_length [OF p] by simp
  have setp: "set ?p = {0..<?n}"
    using mset_eq_setD [OF p] by simp
  have tr: "take (?n - ?t) (drop ?t ?p) = drop ?t ?p"
    by (simp add: len)
  have in1: "\<forall>i\<in>set (drop ?t ?p). i < ?n"
    using setp set_drop_subset [of ?t ?p] by auto
  have in2: "\<forall>i\<in>set (take ?t ?p). i < ?n"
    using setp set_take_subset [of ?t ?p] by auto
  have v: "validate_shuffle_split ?n (1 / 10) = Inr (?n - ?t, ?t)"
    using n by (simp add: validate_shuffle_split_tenth)
  show ?thesis
    using in1 in2
    by (simp add: main_split_def train_test_split_def v length_DataFrame iter_indices_def
        check_random_state_def tr safe_indexing_def Let_def)
qed

text \<open>
  C3 (as amended). For every list of at least two formatted records, and a generator
  whose draw is a permutation of the row positions, the split returns a train and a test
  part such that every row of the input frame is in exactly one of them: together they
  hold the rows of the frame, each once, and they have no row in common. (For a list of
  fewer than two records the split raises instead.)
\<close>

theorem main_split_partition:
  assumes "2 \<le> length formatted_data"
    and "mset (permutation (seed_rng 42) (length formatted_data)) = mset [0..<length formatted_data]"
  shows "\<exists>train test.
     main_split seed_rng permutation global_rng formatted_data = Inr (train, test) \<and>
     mset (train @ test) = mset (DataFrame formatted_data) \<and>
     set train \<union> set test = set (DataFrame formatted_data) \<and>
     set train \<inter> set test = {}"
proof -
  let ?X = "DataFrame formatted_data"
  let ?n = "length formatted_data"
  let ?p = "permutation (seed_rng 42) ?n"
  let ?t = "(?n + 9) div 10"
  let ?train = "map (\<lambda>i. ?X ! i) (drop ?t ?p)"
  let ?test = "map (\<lambda>i. ?X ! i) (take ?t ?p)"
  have split: "main_split seed_rng permutation global_rng formatted_data = Inr (?train, ?test)"
    by (rule main_split_Inr; fact)
  have "mset (?train @ ?test) = image_mset (\<lambda>i. ?X ! i) (mset (take ?t ?p @ drop ?t ?p))"
    by (simp del: append_take_drop_id)
  also have "\<dots> = image_mset (\<lambda>i. ?X ! i) (mset [0..<?n])"
    using assms(2) by simp
  also have "\<dots> = mset (map (\<lambda>i. ?X ! i) [0..<length ?X])"
    by (simp add: length_DataFrame)
  also have "\<dots> = mset ?X"
    by (simp only: map_nth)
  finally have m: "mset (?train @ ?test) = mset ?X" .
  then have d: "distinct (?train @ ?test)"
    using distinct_DataFrame [of formatted_data] mset_eq_imp_distinct_iff by blast
  have u: "set ?train \<union> set ?test = set ?X"
    using mset_eq_setD [OF m] by simp
  have i: "set ?train \<inter> set ?test = {}"
    using d by (simp only: distinct_append)
  show ?thesis
    using split m u i by blast
qed

theorem main_split_partition_witness:
  "\<exists>train test.
     main_split (\<lambda>s. s) (\<lambda>g n. rev [0..<n]) (0::nat) [''a'', ''b'', ''c''] = Inr (train, test) \<and>
     mset (train @ test) = mset (DataFrame [''a'', ''b'', ''c'']) \<and>
     set train \<union> set test = set (DataFrame [''a'', ''b'', ''c'']) \<and>
     set train \<inter> set test = {}"
  by (rule main_split_partition) simp_all

text \<open>With a single record the split returns no parts at all.\<close>

theorem main_split_single_counterexample:
  "\<not> (\<exists>train test.
     main_split (\<lambda>s. s) (\<lambda>g n. rev [0..<n]) (0::nat) [''a''] = Inr (train, test) \<and>
     mset (train @ test) = mset (DataFrame [''a'']))"
  by (simp add: main_split_def train_test_split_def validate_shuffle_split_tenth length_DataFrame)

text \<open>
  C4. The split is deterministic: the seed is the constant 42, so two runs on the same
  records return the same result, whatever the state of the process-wide generator
  (which \<^verbatim>\<open>set_seed(training_args.seed)\<close> sets from the configuration) is in each run.
\<close>

theorem main_split_deterministic:
  "main_split seed_rng permutation global_rng formatted_data =
   main_split seed_rng permutation global_rng' formatted_data"
  by (simp add: main_split_def train_test_split_def check_random_state_def Let_def
      cong: sum.case_cong)

text \<open>
  C5 (as amended). For every list of \<open>n \<ge> 2\<close> formatted records the test part has
  \<open>ceil(n / 10)\<close> rows, written \<open>(n + 9) div 10\<close>, and the train part has the other
  \<open>n - ceil(n / 10)\<close> rows. (For \<open>n < 2\<close> the split raises instead.)
\<close>

theorem main_split_sizes:
  assumes "2 \<le> length formatted_data"
    and "mset (permutation (seed_rng 42) (length formatted_data)) = mset [0..<length formatted_data]"
  shows "\<exists>train test.
     main_split seed_rng permutation global_rng formatted_data = Inr (train, test) \<and>
     length test = (length formatted_data + 9) div 10 \<and>
     length train = length formatted_data - (length formatted_data + 9) div 10 \<and>
     length formatted_data \<le> 10 * length test \<and>
     10 * length test < length formatted_data + 10"
proof -
  let ?n = "length formatted_data"
  let ?p = "permutation (seed_rng 42) ?n"
  let ?t = "(?n + 9) div 10"
  have len: "length ?p = ?n"
    using mset_eq_length [OF assms(2)] by simp
  have le: "?t \<le> ?n"
    using assms(1) by arith
  have b: "?n \<le> 10 * ?t \<and> 10 * ?t < ?n + 10"
    by arith
  have "main_split seed_rng permutation global_rng formatted_data =
     Inr (map (\<lambda>i. DataFrame formatted_data ! i) (drop ?t ?p),
          map (\<lambda>i. DataFrame formatted_data ! i) (take ?t ?p))"
    by (rule main_split_Inr; fact)
  then show ?thesis
    using len le b by (simp add: min_def)
qed

theorem main_split_sizes_witness:
  "\<exists>train test.
     main_split (\<lambda>s. s) (\<lambda>g n. rev [0..<n]) (0::nat) [1, 2, 3, 4, 5, 6, 7, 8, 9, 10, 11 :: nat]
       = Inr (train, test) \<and>
     length test = 2 \<and> length train = 9"
proof -
  have "\<exists>train test.
     main_split (\<lambda>s. s) (\<lambda>g n. rev [0..<n]) (0::nat) [1, 2, 3, 4, 5, 6, 7, 8, 9, 10, 11 :: nat]
       = Inr (train, test) \<and>
     length test = (length [1, 2, 3, 4, 5, 6, 7, 8, 9, 10, 11 :: nat] + 9) div 10 \<and>
     length train = length [1, 2, 3, 4, 5, 6, 7, 8, 9, 10, 11 :: nat]
       - (length [1, 2, 3, 4, 5, 6, 7, 8, 9, 10, 11 :: nat] + 9) div 10 \<and>
     length [1, 2, 3, 4, 5, 6, 7, 8, 9, 10, 11 :: nat] \<le> 10 * length test \<and>
     10 * length test < length [1, 2, 3, 4, 5, 6, 7, 8, 9, 10, 11 :: nat] + 10"
    by (rule main_split_sizes) simp_all
  then show ?thesis by auto
qed

text \<open>With a single record no rows are assigned to either part.\<close>

theorem main_split_sizes_counterexample:
  "\<not> (\<exists>train test.
     main_split (\<lambda>s. s) (\<lambda>g n. rev [0..<n]) (0::nat) [1 :: nat] = Inr (train, test))"
  by (simp add: main_split_def train_test_split_def validate_shuffle_split_tenth length_DataFrame)

section \<open>Properties of loading: records with missing fields\<close>

lemma format_data_total:
  assumes "\<forall>row\<in>set rows. \<exists>d. format_row row = Inr d"
  shows "\<exists>outs. format_data rows = Inr outs \<and> length outs = length rows"
proof -
  from assms obtain f where f: "\<forall>row\<in>set rows. format_row row = Inr (f row)"
    by metis
  then have "list_all2 (\<lambda>r d. format_row r = Inr d) rows (map f rows)"
    by (simp add: list_all2_conv_all_nth)
  then show ?thesis
    by (intro exI [of _ "map f rows"]) (simp add: format_data_Inr_iff)
qed

lemma format_row_missing:
  assumes "k \<in> set required_fields" and "map_of row k = None"
  shows "\<exists>k'\<in>set required_fields. format_row row = Inl (KeyError k')"
  using assms
  by (auto simp: format_row_def build_user_prompt_def getitem_def required_fields_def
      split: option.splits)

lemma set_columns: "set (columns recs) = (\<Union>r\<in>set recs. fst ` set r)"
  by (auto simp: columns_def)

lemma getitem_read_json:
  assumes "row \<in> set (read_json recs)"
  shows "(k \<in> set (columns recs) \<longrightarrow> (\<exists>v. getitem row k = Inr v)) \<and>
         (k \<notin> set (columns recs) \<longrightarrow> map_of row k = None)"
proof -
  from assms obtain r where
    row: "row = map (\<lambda>c. (c, case map_of r c of None \<Rightarrow> NaN | Some v \<Rightarrow> Str v)) (columns recs)"
    by (auto simp: read_json_def)
  have "map_of row k =
     (if k \<in> set (columns recs)
      then Some (case map_of r k of None \<Rightarrow> NaN | Some v \<Rightarrow> Str v) else None)"
    unfolding row by (induction "columns recs") (auto simp: map_of_map_restrict restrict_map_def)
  then show ?thesis
    by (simp add: getitem_def)
qed

text \<open>
  C6 (as amended). When a required field is missing from every record of a file that has
  records, the frame has no such column, reading it in the first row raises a \<open>KeyError\<close>
  for a required field, and the run ends without any formatted record. When every
  required field occurs in at least one record, no error is raised and every record is
  formatted, also a record that lacks one of the fields: its cell is \<open>NaN\<close>.
\<close>

theorem load_and_format_missing:
  assumes "recs \<noteq> []"
  shows "((\<exists>k\<in>set required_fields. \<forall>r\<in>set recs. k \<notin> fst ` set r) \<longrightarrow>
            (\<exists>k\<in>set required_fields. load_and_format recs = Inl (KeyError k))) \<and>
         ((\<forall>k\<in>set required_fields. \<exists>r\<in>set recs. k \<in> fst ` set r) \<longrightarrow>
            (\<exists>outs. load_and_format recs = Inr outs \<and> length outs = length recs))"
proof (intro conjI impI)
  assume "\<exists>k\<in>set required_fields. \<forall>r\<in>set recs. k \<notin> fst ` set r"
  then obtain k where k: "k \<in> set required_fields" "k \<notin> set (columns recs)"
    by (auto simp: set_columns)
  from assms obtain row rows where rr: "read_json recs = row # rows"
    by (cases "read_json recs") (auto simp: read_json_def)
  then have "row \<in> set (read_json recs)"
    by simp
  then have "map_of row k = None"
    using getitem_read_json k(2) by blast
  then obtain k' where "k' \<in> set required_fields" "format_row row = Inl (KeyError k')"
    using format_row_missing [OF k(1)] by blast
  then show "\<exists>k\<in>set required_fields. load_and_format recs = Inl (KeyError k)"
    by (auto simp: load_and_format_def format_data_def rr)
next
  assume "\<forall>k\<in>set required_fields. \<exists>r\<in>set recs. k \<in> fst ` set r"
  then have "\<forall>k\<in>set required_fields. k \<in> set (columns recs)"
    by (auto simp: set_columns)
  then have "\<forall>row\<in>set (read_json recs). \<forall>k\<in>set required_fields. \<exists>v. getitem row k = Inr v"
    using getitem_read_json by blast
  then have "\<forall>row\<in>set (read_json recs). \<exists>d. format_row row = Inr d"
    using format_row_total by blast
  from format_data_total [OF this]
  show "\<exists>outs. load_and_format recs = Inr outs \<and> length outs = length recs"
    by (simp add: load_and_format_def read_json_def)
qed

theorem load_and_format_missing_witness:
  "(\<exists>k\<in>set required_fields.
      load_and_format [[(''question'', ''a''), (''first_trial_reasoning'', ''b''),
                        (''reflection_chosen'', ''c'')]] = Inl (KeyError k)) \<and>
   (\<exists>outs.
      load_and_format [[(''question'', ''a''), (''first_trial_reasoning'', ''b''),
                        (''reflection_chosen'', ''c''), (''reflection_rejected'', ''d'')],
                       [(''first_trial_reasoning'', ''f''),
                        (''reflection_chosen'', ''g''), (''reflection_rejected'', ''h'')]]
        = Inr outs \<and> length outs = 2)"
proof -
  let ?recs1 = "[[(''question'', ''a''), (''first_trial_reasoning'', ''b''),
                  (''reflection_chosen'', ''c'')]]"
  let ?recs2 = "[[(''question'', ''a''), (''first_trial_reasoning'', ''b''),
                  (''reflection_chosen'', ''c''), (''reflection_rejected'', ''d'')],
                 [(''first_trial_reasoning'', ''f''),
                  (''reflection_chosen'', ''g''), (''reflection_rejected'', ''h'')]]"
  have 1: "\<exists>k\<in>set required_fields. load_and_format ?recs1 = Inl (KeyError k)"
    using load_and_format_missing [of ?recs1] by (simp add: required_fields_def)
  have 2: "\<exists>outs. load_and_format ?recs2 = Inr outs \<and> length outs = length ?recs2"
    using load_and_format_missing [of ?recs2] by (simp add: required_fields_def)
  from 1 2 show ?thesis by (simp add: numeral_2_eq_2)
qed

text \<open>
  A record without \<open>question\<close>, after a record that has one, raises nothing: it is
  formatted with the text \<open>nan\<close> in place of the question.
\<close>

theorem load_and_format_nan_counterexample:
  "load_and_format [[(''question'', ''a''), (''first_trial_reasoning'', ''b''),
                     (''reflection_chosen'', ''c''), (''reflection_rejected'', ''d'')],
                    [(''first_trial_reasoning'', ''f''),
                     (''reflection_chosen'', ''g''), (''reflection_rejected'', ''h'')]] =
     Inr [\<lparr>prompt = template ''a'' ''b'',
           chosen = [\<lparr>content = Str (template ''a'' ''b''), role = ''user''\<rparr>,
                     \<lparr>content = Str ''c'', role = ''assistant''\<rparr>],
           rejected = [\<lparr>content = Str (template ''a'' ''b''), role = ''user''\<rparr>,
                       \<lparr>content = Str ''d'', role = ''assistant''\<rparr>]\<rparr>,
          \<lparr>prompt = template ''nan'' ''f'',
           chosen = [\<lparr>content = Str (template ''nan'' ''f''), role = ''user''\<rparr>,
                     \<lparr>content = Str ''g'', role = ''assistant''\<rparr>],
           rejected = [\<lparr>content = Str (template ''nan'' ''f''), role = ''user''\<rparr>,
                       \<lparr>content = Str ''h'', role = ''assistant''\<rparr>]\<rparr>]"
  by (simp add: load_and_format_def read_json_def columns_def format_data_def format_row_def
      build_user_prompt_def getitem_def)

section \<open>Properties of the command line\<close>

lemma map_of_actions_DataPath:
  "map_of option_string_actions s = Some DataPath \<longleftrightarrow> s = ''--data_path''"
  by (auto simp: option_string_actions_def split: if_splits)

lemma dropWhile_eq_Nil_eq: "dropWhile (\<lambda>c. c \<noteq> x) s = [] \<longleftrightarrow> x \<notin> set s"
  by (induction s) auto

lemma get_option_tuples_DataPath:
  assumes "get_option_tuples s = Some [(Some DataPath, os, sep, e)]"
  shows "data_path_option s \<and>
     (case e of None \<Rightarrow> CHR ''='' \<notin> set s
      | Some v \<Rightarrow> CHR ''='' \<in> set s \<and> v = tl (dropWhile (\<lambda>c. c \<noteq> CHR ''='') s))"
proof (cases s)
  case Nil
  with assms show ?thesis by simp
next
  case (Cons c0 s')
  show ?thesis
  proof (cases s')
    case Nil
    with assms Cons show ?thesis by simp
  next
    case (Cons c1 cs)
    note s = \<open>s = c0 # s'\<close> Cons
    show ?thesis
    proof (cases "c0 = CHR ''-'' \<and> c1 = CHR ''-''")
      case True
      let ?name = "takeWhile (\<lambda>c. c \<noteq> CHR ''='') s"
      have name: "?name = CHR ''-'' # CHR ''-'' # takeWhile (\<lambda>c. c \<noteq> CHR ''='') cs"
        using True s by simp
      have f: "map (\<lambda>(os, a). (Some a, os,
                 (if dropWhile (\<lambda>c. c \<noteq> CHR ''='') s = [] then (None, None)
                  else (Some ''='', Some (tl (dropWhile (\<lambda>c. c \<noteq> CHR ''='') s))))))
               (filter (\<lambda>(os, a). startswith os ?name) option_string_actions)
             = [(Some DataPath, os, sep, e)]"
        using assms True s
        by (auto simp: partition_eq_def Let_def split: if_splits prod.splits)
      then have len: "takeWhile (\<lambda>c. c \<noteq> CHR ''='') cs \<noteq> []"
        by (auto simp: name option_string_actions_def startswith_def)
      have sw: "startswith ''--data_path'' ?name"
        using f by (auto simp: option_string_actions_def split: if_splits)
      have dp: "data_path_option s"
        using len sw by (simp add: data_path_option_def name Suc_le_eq numeral_3_eq_3)
      have "(sep, e) = (if dropWhile (\<lambda>c. c \<noteq> CHR ''='') s = [] then (None, None)
                  else (Some ''='', Some (tl (dropWhile (\<lambda>c. c \<noteq> CHR ''='') s))))"
        using f by (auto simp: option_string_actions_def split: if_splits)
      then show ?thesis
        using dp by (auto simp: dropWhile_eq_Nil_eq split: if_splits)
    next
      case False
      with assms s show ?thesis
        by (auto simp: option_string_actions_def startswith_def Let_def split: if_splits)
    qed
  qed
qed

lemma parse_optional_DataPath:
  assumes "parse_optional s = Optional (Some DataPath, os, sep, e)"
  shows "data_path_option s \<and>
     (case e of None \<Rightarrow> CHR ''='' \<notin> set s
      | Some v \<Rightarrow> CHR ''='' \<in> set s \<and> v = tl (dropWhile (\<lambda>c. c \<noteq> CHR ''='') s))"
proof (cases "map_of option_string_actions s")
  case (Some a)
  with assms have "a = DataPath" "e = None"
    by (auto simp: parse_optional_def split: if_splits)
  with Some have "s = ''--data_path''"
    by (simp add: map_of_actions_DataPath)
  with \<open>e = None\<close> show ?thesis
    by (simp add: data_path_option_def startswith_def)
next
  case None
  note exact = None
  let ?name = "takeWhile (\<lambda>c. c \<noteq> CHR ''='') s"
  let ?rest = "dropWhile (\<lambda>c. c \<noteq> CHR ''='') s"
  show ?thesis
  proof (cases "?rest \<noteq> [] \<and> map_of option_string_actions ?name \<noteq> None")
    case True
    then obtain a where a: "map_of option_string_actions ?name = Some a"
      by blast
    with assms exact True have "a = DataPath" "e = Some (tl ?rest)"
      by (auto simp: parse_optional_def partition_eq_def Let_def split: if_splits)
    with a have "?name = ''--data_path''"
      by (simp add: map_of_actions_DataPath)
    then have "data_path_option s"
      by (simp add: data_path_option_def startswith_def)
    with True \<open>e = Some (tl ?rest)\<close> show ?thesis
      by (simp add: dropWhile_eq_Nil_eq)
  next
    case False
    with assms exact have "get_option_tuples s = Some [(Some DataPath, os, sep, e)]"
      by (auto simp: parse_optional_def partition_eq_def Let_def
          split: if_splits option.splits list.splits)
    then show ?thesis
      by (rule get_option_tuples_DataPath)
  qed
qed

lemma consume_Parsed:
  assumes "consume pats ns ex = Parsed ns' ex'"
  shows "data_path ns' \<noteq> None \<and>
     (data_path ns' = data_path ns \<or>
      (\<exists>a s os sep e b. pats = a @ (s, PatO (Some DataPath, os, sep, e)) # b \<and>
         data_path ns' = supplied e b))"
  using assms
proof (induction pats ns ex rule: consume.induct)
  case (1 ns extras)
  then show ?case by (auto split: option.splits)
next
  case (2 arg_string rest ns extras)
  then show ?case by (metis consume.simps(2) append_Cons)
next
  case (3 arg_string rest ns extras)
  then show ?case by (metis consume.simps(3) append_Cons)
next
  case (4 arg_string option_string sep explicit_arg rest ns extras)
  then show ?case by (metis consume.simps(4) append_Cons)
next
  case (5 arg_string option_string sep rest ns extras)
  then show ?case by simp
next
  case (6 arg_string option_string sep explicit_arg rest ns extras)
  then show ?case by simp
next
  case (7 arg_string option_string sep explicit_arg rest ns extras)
  let ?x = "(arg_string, PatO (Some DataPath, option_string, sep, Some explicit_arg))"
  from 7 have ih: "data_path ns' \<noteq> None \<and>
     (data_path ns' = Some explicit_arg \<or>
      (\<exists>a s os sep e b. rest = a @ (s, PatO (Some DataPath, os, sep, e)) # b \<and>
         data_path ns' = supplied e b))"
    by simp
  show ?case
  proof (cases "data_path ns' = Some explicit_arg")
    case True
    then have "?x # rest = [] @ ?x # rest \<and> data_path ns' = supplied (Some explicit_arg) rest"
      by simp
    then show ?thesis using True by blast
  next
    case False
    with ih obtain a s os sep' e b where
      "rest = a @ (s, PatO (Some DataPath, os, sep', e)) # b" "data_path ns' = supplied e b"
      by blast
    then have "?x # rest = (?x # a) @ (s, PatO (Some DataPath, os, sep', e)) # b"
      by simp
    with ih \<open>data_path ns' = supplied e b\<close> show ?thesis by blast
  qed
next
  case (8 arg_string option_string sep v rest ns extras)
  let ?x = "(arg_string, PatO (Some DataPath, option_string, sep, None))"
  from 8 have ih: "data_path ns' \<noteq> None \<and>
     (data_path ns' = Some v \<or>
      (\<exists>a s os sep e b. rest = a @ (s, PatO (Some DataPath, os, sep, e)) # b \<and>
         data_path ns' = supplied e b))"
    by simp
  show ?case
  proof (cases "data_path ns' = Some v")
    case True
    then have "?x # (v, PatA) # rest = [] @ ?x # (v, PatA) # rest \<and>
        data_path ns' = supplied None ((v, PatA) # rest)"
      by simp
    then show ?thesis using True by blast
  next
    case False
    with ih obtain a s os sep' e b where
      "rest = a @ (s, PatO (Some DataPath, os, sep', e)) # b" "data_path ns' = supplied e b"
      by blast
    then have "?x # (v, PatA) # rest = (?x # (v, PatA) # a) @ (s, PatO (Some DataPath, os, sep', e)) # b"
      by simp
    with ih \<open>data_path ns' = supplied e b\<close> show ?thesis by blast
  qed
qed simp_all

lemma classify_fst:
  assumes "classify argv = Some pats"
  shows "map fst pats = argv"
  using assms
proof (induction argv arbitrary: pats)
  case Nil
  then show ?case by simp
next
  case (Cons t argv)
  then show ?case
    by (auto simp: comp_def split: if_splits parsed_optional.splits)
qed

lemma classify_PatO:
  assumes "classify argv = Some pats" and "(s, PatO t) \<in> set pats"
  shows "parse_optional s = Optional t"
  using assms
proof (induction argv arbitrary: pats)
  case Nil
  then show ?case by simp
next
  case (Cons t argv)
  then show ?case
    by (auto split: if_splits parsed_optional.splits)
qed

lemma supplied_given_value:
  assumes "parse_optional s = Optional (Some DataPath, os, sep, e)"
    and "supplied e b = Some path"
  shows "given_value s (map fst b) = Some path"
proof (cases e)
  case None
  with assms(2) obtain v b' where "b = (v, PatA) # b'" "path = v"
    by (cases "(e, b)" rule: supplied.cases) auto
  with None parse_optional_DataPath [OF assms(1)] show ?thesis
    by (simp add: given_value_def)
next
  case (Some v)
  with assms(2) parse_optional_DataPath [OF assms(1)] show ?thesis
    by (simp add: given_value_def)
qed

lemma parse_known_args_Parsed:
  assumes "parse_known_args argv = Parsed ns remaining"
  shows "\<exists>path a s b. data_path ns = Some path \<and> argv = a @ s # b \<and> data_path_option s \<and>
     given_value s b = Some path"
proof -
  from assms obtain pats where c: "classify argv = Some pats"
    and p: "consume pats \<lparr>data_path = None\<rparr> [] = Parsed ns remaining"
    by (auto simp: parse_known_args_def split: option.splits)
  from consume_Parsed [OF p] obtain path a s os sep e b where
    path: "data_path ns = Some path"
    and pats: "pats = a @ (s, PatO (Some DataPath, os, sep, e)) # b"
    and sup: "supplied e b = Some path"
    by auto
  have po: "parse_optional s = Optional (Some DataPath, os, sep, e)"
    using classify_PatO [OF c] pats by simp
  have "argv = map fst a @ s # map fst b"
    using classify_fst [OF c] pats by simp
  moreover have "data_path_option s"
    using parse_optional_DataPath [OF po] by simp
  moreover have "given_value s (map fst b) = Some path"
    by (rule supplied_given_value [OF po sup])
  ultimately show ?thesis
    using path by blast
qed

lemma consume_skipped:
  assumes "\<forall>x\<in>set ps. skipped (snd x)"
  shows "consume (ps @ rest) ns ex = consume rest ns (ex @ map fst ps)"
  using assms
proof (induction ps arbitrary: ex)
  case Nil
  then show ?case by simp
next
  case (Cons x ps)
  obtain s p where x: "x = (s, p)" by (cases x)
  from Cons.prems x have "skipped p" by simp
  then have "consume (x # ps @ rest) ns ex = consume (ps @ rest) ns (ex @ [s])"
    unfolding x by (cases p) (auto simp: skipped_def)
  with Cons show ?case by (simp add: x)
qed

lemma classify_tail:
  assumes "\<forall>t\<in>set b. t = ''--'' \<or> passthrough t"
  shows "\<exists>pb. classify b = Some pb \<and> map fst pb = b \<and> (\<forall>x\<in>set pb. skipped (snd x))"
  using assms
proof (induction b)
  case Nil
  then show ?case by simp
next
  case (Cons t b)
  show ?case
  proof (cases "t = ''--''")
    case True
    then show ?thesis by (auto simp: skipped_def comp_def)
  next
    case False
    with Cons.prems have "passthrough t" by simp
    moreover from Cons obtain pb where "classify b = Some pb" "map fst pb = b"
      "\<forall>x\<in>set pb. skipped (snd x)"
      by auto
    ultimately show ?thesis
      using False
      by (auto simp: passthrough_def skipped_def split: parsed_optional.splits)
  qed
qed

lemma classify_front:
  assumes "\<forall>t\<in>set a. t \<noteq> ''--'' \<and> passthrough t"
  shows "\<exists>pa. map fst pa = a \<and> (\<forall>x\<in>set pa. skipped (snd x)) \<and>
     (\<forall>rest. classify (a @ rest) = map_option (\<lambda>ps. pa @ ps) (classify rest))"
  using assms
proof (induction a)
  case Nil
  have "(@) [] = (id :: (string \<times> pat) list \<Rightarrow> (string \<times> pat) list)"
    by (rule ext) simp
  then show ?case by (simp add: option.map_id)
next
  case (Cons t a)
  then obtain pa where pa: "map fst pa = a" "\<forall>x\<in>set pa. skipped (snd x)"
    "\<forall>rest. classify (a @ rest) = map_option (\<lambda>ps. pa @ ps) (classify rest)"
    by auto
  from Cons.prems have t: "t \<noteq> ''--''" "passthrough t" by simp_all
  show ?case
  proof (cases "parse_optional t")
    case Positional
    with t pa show ?thesis
      by (intro exI [of _ "(t, PatA) # pa"]) (simp add: skipped_def option.map_comp comp_def)
  next
    case (Optional tu)
    with t pa show ?thesis
      by (intro exI [of _ "(t, PatO tu) # pa"])
        (auto simp: skipped_def passthrough_def option.map_comp comp_def)
  next
    case Usage_error
    with t show ?thesis by (simp add: passthrough_def)
  qed
qed

lemma parse_known_args_given:
  assumes a: "\<forall>t\<in>set a. t \<noteq> ''--'' \<and> passthrough t"
    and p: "parse_optional path = Positional"
    and b: "\<forall>t\<in>set b. t = ''--'' \<or> passthrough t"
  shows "parse_known_args (a @ ''--data_path'' # path # b) =
     Parsed \<lparr>data_path = Some path\<rparr> (a @ b)"
proof -
  from classify_front [OF a] obtain pa where pa: "map fst pa = a" "\<forall>x\<in>set pa. skipped (snd x)"
    "\<forall>rest. classify (a @ rest) = map_option (\<lambda>ps. pa @ ps) (classify rest)"
    by blast
  from classify_tail [OF b] obtain pb where pb: "classify b = Some pb" "map fst pb = b"
    "\<forall>x\<in>set pb. skipped (snd x)"
    by blast
  have d: "parse_optional ''--data_path'' = Optional (Some DataPath, ''--data_path'', None, None)"
    by (simp add: parse_optional_def option_string_actions_def)
  have "path \<noteq> ''--''"
    using p by (auto simp: parse_optional_def option_string_actions_def partition_eq_def
        startswith_def Let_def)
  then have c: "classify (a @ ''--data_path'' # path # b) =
      Some (pa @ (''--data_path'', PatO (Some DataPath, ''--data_path'', None, None)) #
              (path, PatA) # pb)"
    using pa(3) pb(1) p d by simp
  have "consume (pa @ (''--data_path'', PatO (Some DataPath, ''--data_path'', None, None)) #
              (path, PatA) # pb) \<lparr>data_path = None\<rparr> [] =
        consume (pb @ []) \<lparr>data_path = Some path\<rparr> a"
    by (simp add: consume_skipped [OF pa(2)] pa(1))
  also have "\<dots> = Parsed \<lparr>data_path = Some path\<rparr> (a @ b)"
    by (simp only: consume_skipped [OF pb(3)] pb(2)) simp
  finally show ?thesis
    by (simp add: parse_known_args_def c)
qed

text \<open>
  C7 (as amended). The data path option is required: a command line in which no argument
  string is \<open>--data_path\<close>, an abbreviation of it (\<open>--d\<close> to \<open>--data_pat\<close>) or one of these
  followed by \<open>=value\<close> ends in \<^verbatim>\<open>sys.exit\<close>, and no file is read. Whenever a file
  is read, its path is the value given with such an argument string, after the \<open>=\<close> or as
  the next string. And a command line that has \<open>--data_path path\<close> with a plain argument
  \<open>path\<close>, among strings that are plain arguments or options of the second parser, reads
  the file at \<open>path\<close>.
\<close>

theorem data_path_required:
  "(\<not> (\<exists>s\<in>set argv. data_path_option s) \<longrightarrow>
      (\<exists>status. parse_known_args argv = SystemExit status) \<and> read_json_path argv = None) \<and>
   (\<forall>path. read_json_path argv = Some path \<longrightarrow>
      (\<exists>a s b. argv = a @ s # b \<and> data_path_option s \<and> given_value s b = Some path)) \<and>
   (\<forall>a path b.
      argv = a @ ''--data_path'' # path # b \<and>
      (\<forall>t\<in>set a. t \<noteq> ''--'' \<and> passthrough t) \<and>
      parse_optional path = Positional \<and>
      (\<forall>t\<in>set b. t = ''--'' \<or> passthrough t) \<longrightarrow>
      read_json_path argv = Some path)"
proof (intro conjI allI impI)
  assume no: "\<not> (\<exists>s\<in>set argv. data_path_option s)"
  show "\<exists>status. parse_known_args argv = SystemExit status"
  proof (cases "parse_known_args argv")
    case (Parsed ns remaining)
    from parse_known_args_Parsed [OF this] no show ?thesis by auto
  next
    case (SystemExit status)
    then show ?thesis by blast
  qed
  then show "read_json_path argv = None"
    by (auto simp: read_json_path_def)
next
  fix path
  assume r: "read_json_path argv = Some path"
  then obtain ns remaining where "parse_known_args argv = Parsed ns remaining"
    "data_path ns = Some path"
    by (auto simp: read_json_path_def split: outcome.splits)
  with parse_known_args_Parsed [of argv ns remaining]
  show "\<exists>a s b. argv = a @ s # b \<and> data_path_option s \<and> given_value s b = Some path"
    by auto
next
  fix a path b
  assume "argv = a @ ''--data_path'' # path # b \<and>
      (\<forall>t\<in>set a. t \<noteq> ''--'' \<and> passthrough t) \<and>
      parse_optional path = Positional \<and>
      (\<forall>t\<in>set b. t = ''--'' \<or> passthrough t)"
  then show "read_json_path argv = Some path"
    by (simp add: read_json_path_def parse_known_args_given)
qed

theorem data_path_required_witness:
  "(\<exists>status. parse_known_args [''--model_name_or_path'', ''m''] = SystemExit status) \<and>
   (\<exists>a s b. [''--output_dir'', ''out'', ''--data=x.jsonl''] = a @ s # b \<and>
        data_path_option s \<and> given_value s b = Some ''x.jsonl'') \<and>
   read_json_path [''--seed'', ''7'', ''--data_path'', ''train.jsonl'', ''--model_name_or_path'', ''m'']
     = Some ''train.jsonl''"
proof (intro conjI)
  have 1: "\<not> (\<exists>s\<in>set [''--model_name_or_path'', ''m'']. data_path_option s)"
    by code_simp
  show "\<exists>status. parse_known_args [''--model_name_or_path'', ''m''] = SystemExit status"
    using data_path_required [of "[''--model_name_or_path'', ''m'']", THEN conjunct1, THEN mp, OF 1]
    by (rule conjunct1)
next
  have 2: "read_json_path [''--output_dir'', ''out'', ''--data=x.jsonl''] = Some ''x.jsonl''"
    by code_simp
  show "\<exists>a s b. [''--output_dir'', ''out'', ''--data=x.jsonl''] = a @ s # b \<and>
        data_path_option s \<and> given_value s b = Some ''x.jsonl''"
    by (rule data_path_required [of "[''--output_dir'', ''out'', ''--data=x.jsonl'']",
          THEN conjunct2, THEN conjunct1, rule_format, OF 2])
next
  have 3: "(\<forall>t\<in>set [''--seed'', ''7'']. t \<noteq> ''--'' \<and> passthrough t) \<and>
      parse_optional ''train.jsonl'' = Positional \<and>
      (\<forall>t\<in>set [''--model_name_or_path'', ''m'']. t = ''--'' \<or> passthrough t)"
    by code_simp
  have 4: "[''--seed'', ''7'', ''--data_path'', ''train.jsonl'', ''--model_name_or_path'', ''m'']
        = [''--seed'', ''7''] @ ''--data_path'' # ''train.jsonl'' # [''--model_name_or_path'', ''m'']"
    by (simp only: append.simps)
  show "read_json_path
      [''--seed'', ''7'', ''--data_path'', ''train.jsonl'', ''--model_name_or_path'', ''m'']
     = Some ''train.jsonl''"
    by (rule data_path_required
          [of "[''--seed'', ''7'', ''--data_path'', ''train.jsonl'', ''--model_name_or_path'', ''m'']",
           THEN conjunct2, THEN conjunct2, THEN spec, THEN spec, THEN spec, THEN mp,
           OF conjI [OF 4 3]])
qed

text \<open>
  A command line without the string \<open>--data_path\<close> is parsed when it abbreviates the
  option, and a command line with \<open>--data_path\<close> and its path reads nothing when it also
  asks for help.
\<close>

theorem data_path_abbreviation_counterexample:
  "''--data_path'' \<notin> set [''--data'', ''train.jsonl''] \<and>
   parse_known_args [''--data'', ''train.jsonl''] = Parsed \<lparr>data_path = Some ''train.jsonl''\<rparr> [] \<and>
   parse_known_args [''--data_path'', ''train.jsonl'', ''-h''] = SystemExit 0"
proof (intro conjI)
  show "''--data_path'' \<notin> set [''--data'', ''train.jsonl'']"
    by simp
  show "parse_known_args [''--data'', ''train.jsonl''] =
      Parsed \<lparr>data_path = Some ''train.jsonl''\<rparr> []"
    by code_simp
  show "parse_known_args [''--data_path'', ''train.jsonl'', ''-h''] = SystemExit 0"
    by code_simp
qed

end
